theory Spec2Isabelle
  imports Complex_Main "HOL-Library.Word" "HOL-Library.Multiset"
begin

section \<open>The occupancy node of \<^verbatim>\<open>src/main.cpp\<close>\<close>

text \<open>
  The program is one function, \<^verbatim>\<open>setup\<close>, run once per wake-up: it samples an
  ultrasonic sensor for a wall-clock window, votes, reports a change of verdict over WiFi,
  arms a timer and enters deep sleep. Everything the function reads from the outside
  (the clock, the echo, the radio status, the answer of the database) is an input of the
  model; everything it does to the outside is an event of a trace.
\<close>

subsection \<open>Configuration constants (lines 59 to 66)\<close>

definition OBJECT_THRESHOLD_CM :: rat where
  "OBJECT_THRESHOLD_CM = 50"

definition ACTIVE_PERIOD_MS :: "32 word" where
  "ACTIVE_PERIOD_MS = 5000"

definition MEASUREMENT_INTERVAL_MS :: "32 word" where
  "MEASUREMENT_INTERVAL_MS = 500"

definition REQUIRED_COUNT :: int where
  "REQUIRED_COUNT = 6"

definition NO_PERSON_SLEEP_MS :: "32 word" where
  "NO_PERSON_SLEEP_MS = 30000"

definition PERSON_SLEEP_MS :: "32 word" where
  "PERSON_SLEEP_MS = 10000"

subsection \<open>The environment of one wake cycle\<close>

text \<open>
  One \<open>tick\<close> is what the outside world does during one iteration of the sampling loop:
  \<^item> \<open>echo\<close>: the width in microseconds of the echo pulse, or \<open>None\<close> when no complete
    pulse arrives within the 30 ms given to \<^verbatim>\<open>pulseIn\<close>;
  \<^item> \<open>lag\<close>: the milliseconds by which the iteration overruns its \<^verbatim>\<open>delay(500)\<close>
    (the measurement itself, the serial output, scheduling), as an unsigned 32-bit
    number like the clock.
\<close>

record tick =
  echo :: "nat option"
  lag :: "32 word"

text \<open>
  \<open>boot_millis\<close> is the reading of \<^verbatim>\<open>millis()\<close> at line 157, \<open>ticks\<close> the successive
  iterations the environment offers, \<open>wifi_status k\<close> whether the \<open>k\<close>-th call of
  \<^verbatim>\<open>WiFi.status()\<close> in this cycle returns \<^verbatim>\<open>WL_CONNECTED\<close>, and \<open>db_set_ok\<close> the result of
  \<^verbatim>\<open>Database.set\<close>.
\<close>

record env =
  boot_millis :: "32 word"
  ticks :: "tick list"
  wifi_status :: "nat \<Rightarrow> bool"
  db_set_ok :: bool

text \<open>
  The trace holds the effects on the radio, the remote store and the sleep primitive, the
  delays of the connect loop, and the serial lines that name the branch taken. The other
  diagnostic output (progress dots, numbers, addresses, library messages) is left out.
\<close>

datatype event =
    Serial string
  | Delay "32 word"
  | WiFiBegin
  | FirebaseInit
  | DatabaseSet string int
  | WiFiDisconnect
  | SleepTimerWakeup "64 word"
  | DeepSleepStart

fun network_event :: "event \<Rightarrow> bool" where
  "network_event WiFiBegin = True"
| "network_event FirebaseInit = True"
| "network_event (DatabaseSet p v) = True"
| "network_event WiFiDisconnect = True"
| "network_event e = False"

fun database_write :: "event \<Rightarrow> bool" where
  "database_write (DatabaseSet p v) = True"
| "database_write e = False"

fun is_delay :: "event \<Rightarrow> bool" where
  "is_delay (Delay d) = True"
| "is_delay e = False"

text \<open>
  \<open>lastPersonPresent\<close> is the variable kept in RTC memory (line 78), \<open>polls\<close> counts the
  calls of \<^verbatim>\<open>WiFi.status()\<close> made so far in this cycle.
\<close>

record state =
  lastPersonPresent :: bool
  polls :: nat
  trace :: "event list"

definition emit :: "event \<Rightarrow> state \<Rightarrow> state" where
  "emit e st = st\<lparr>trace := trace st @ [e]\<rparr>"

definition WiFi_status :: "env \<Rightarrow> state \<Rightarrow> bool \<times> state" where
  "WiFi_status ev st = (wifi_status ev (polls st), st\<lparr>polls := Suc (polls st)\<rparr>)"

subsection \<open>\<^verbatim>\<open>measureDistanceCM\<close> (lines 83 to 97)\<close>

text \<open>
  \<^verbatim>\<open>pulseIn(ECHO_PIN, HIGH, 30000)\<close> belongs to the Arduino core: it returns the width of
  the pulse in microseconds, and 0 when the timeout passes first.
\<close>

definition pulseIn :: "nat option \<Rightarrow> int" where
  "pulseIn e = (case e of None \<Rightarrow> 0 | Some w \<Rightarrow> int w)"

text \<open>
  The source computes \<^verbatim>\<open>(duration * 0.034) / 2.0\<close> in double precision and returns it as
  a \<^verbatim>\<open>float\<close>. The model computes the same expression exactly, over the rationals. The
  only use of the result is the comparison with 50 cm; the products nearest to the
  threshold are 49.997 (2941 microseconds) and 50.014 (2942 microseconds), far further
  from 50 than any rounding of the two operations, so the comparison is the same.
\<close>

definition measureDistanceCM :: "nat option \<Rightarrow> rat" where
  "measureDistanceCM e = (let duration = pulseIn e in (of_int duration * (34 / 1000)) / 2)"

subsection \<open>The sampling loop (lines 162 to 169)\<close>

text \<open>
  \<open>now - start\<close> is the unsigned 32-bit subtraction of the source. An iteration measures,
  counts, and waits; the clock has then advanced by the interval and the lag of the tick.
  The counters are \<^verbatim>\<open>int\<close> in the source; they count iterations, each of which lasts at
  least half a second, so they stay far from 32 bits. The result is
  \<open>(detectionCount, totalCount)\<close>, and \<open>None\<close> when the loop asks for more iterations than
  the environment offers.
\<close>

fun sample_loop :: "32 word \<Rightarrow> 32 word \<Rightarrow> tick list \<Rightarrow> int \<Rightarrow> int \<Rightarrow> (int \<times> int) option" where
  "sample_loop start now [] detectionCount totalCount =
     (if now - start < ACTIVE_PERIOD_MS then None
      else Some (detectionCount, totalCount))"
| "sample_loop start now (t # ts) detectionCount totalCount =
     (if now - start < ACTIVE_PERIOD_MS then
        (let dist = measureDistanceCM (echo t);
             totalCount' = totalCount + 1;
             detectionCount' =
               (if dist < OBJECT_THRESHOLD_CM then detectionCount + 1 else detectionCount)
         in sample_loop start (now + MEASUREMENT_INTERVAL_MS + lag t) ts
              detectionCount' totalCount')
      else Some (detectionCount, totalCount))"

subsection \<open>\<^verbatim>\<open>connectWiFi\<close> (lines 102 to 118)\<close>

text \<open>
  The loop condition reads the status first and the retry counter second, so every test
  of the condition is one poll, also the one that finds the counter at 0.
\<close>

function retry_loop :: "env \<Rightarrow> int \<Rightarrow> state \<Rightarrow> state" where
  "retry_loop ev retries st =
     (case WiFi_status ev st of
        (up, st1) \<Rightarrow>
          if \<not> up \<and> retries > 0
          then retry_loop ev (retries - 1) (emit (Delay 500) st1)
          else st1)"
  by pat_completeness auto
termination
  by (relation "measure (\<lambda>(ev, retries, st). nat retries)") auto

declare retry_loop.simps [simp del]

definition connectWiFi :: "env \<Rightarrow> state \<Rightarrow> state" where
  "connectWiFi ev st =
     (let st1 = emit WiFiBegin st;
          st2 = retry_loop ev 20 st1
      in case WiFi_status ev st2 of
           (up, st3) \<Rightarrow>
             if up then emit (Serial ''WiFi connected.'') st3
             else emit (Serial ''WiFi connection failed.'') st3)"

subsection \<open>\<^verbatim>\<open>initFirebase\<close> and \<^verbatim>\<open>sendToFirebase\<close> (lines 123 to 148)\<close>

definition initFirebase :: "state \<Rightarrow> state" where
  "initFirebase st = emit FirebaseInit st"

text \<open>\<^verbatim>\<open>String(status)\<close> for the two values the caller passes.\<close>

definition String_of_status :: "int \<Rightarrow> string" where
  "String_of_status status = (if status = 1 then ''1'' else ''0'')"

definition sendToFirebase :: "env \<Rightarrow> string \<Rightarrow> int \<Rightarrow> state \<Rightarrow> state" where
  "sendToFirebase ev path status st =
     (case WiFi_status ev st of
        (up, st1) \<Rightarrow>
          if up then
            (let st2 = emit (DatabaseSet path status) st1;
                 ok = db_set_ok ev
             in if \<not> ok then emit (Serial ''Firebase set error: '') st2
                else emit (Serial (''State updated to Firebase: '' @ String_of_status status)) st2)
          else emit (Serial ''WiFi not connected. Cannot send update to Firebase.'') st1)"

subsection \<open>\<^verbatim>\<open>setup\<close> (lines 150 to 213)\<close>

text \<open>The report gate, lines 183 to 195.\<close>

definition report_gate :: "env \<Rightarrow> bool \<Rightarrow> state \<Rightarrow> state" where
  "report_gate ev currentPersonPresent st =
     (if currentPersonPresent \<noteq> lastPersonPresent st then
        (let st1 = emit (Serial ''State change detected. Updating Firebase...'') st;
             st2 = connectWiFi ev st1;
             st3 = initFirebase st2;
             st4 = sendToFirebase ev ''/lab4/presence''
                     (if currentPersonPresent then 1 else 0) st3;
             st5 = emit WiFiDisconnect st4
         in st5\<lparr>lastPersonPresent := currentPersonPresent\<rparr>)
      else emit (Serial ''No state change detected. No update sent.'') st)"

text \<open>The choice of the sleep duration, lines 200 to 207.\<close>

definition select_sleep :: "bool \<Rightarrow> 32 word" where
  "select_sleep currentPersonPresent =
     (if currentPersonPresent then PERSON_SLEEP_MS else NO_PERSON_SLEEP_MS)"

definition sleep_line :: "bool \<Rightarrow> string" where
  "sleep_line currentPersonPresent =
     (if currentPersonPresent then ''Person detected: entering short deep sleep.''
      else ''No person detected: entering longer deep sleep.'')"

text \<open>
  Lines 211 and 212: the duration is widened to 64 bits by the multiplication with
  \<^verbatim>\<open>1000ULL\<close>; \<^verbatim>\<open>esp_deep_sleep_start\<close> does not return.
\<close>

definition deep_sleep :: "32 word \<Rightarrow> state \<Rightarrow> state" where
  "deep_sleep sleepDuration st =
     emit DeepSleepStart (emit (SleepTimerWakeup (ucast sleepDuration * 1000)) st)"

text \<open>What one run of \<^verbatim>\<open>setup\<close> leaves behind: its locals and the final state.\<close>

record cycle =
  detectionCount :: int
  totalCount :: int
  currentPersonPresent :: bool
  sleepDuration :: "32 word"
  final :: state

text \<open>Lines 172 to 212, everything after the sampling loop.\<close>

definition after_sampling :: "env \<Rightarrow> int \<Rightarrow> int \<Rightarrow> state \<Rightarrow> cycle" where
  "after_sampling ev dc tc st =
     (let present = (dc \<ge> REQUIRED_COUNT);
          st1 = report_gate ev present st;
          dur = select_sleep present;
          st2 = emit (Serial (sleep_line present)) st1;
          st3 = deep_sleep dur st2
      in \<lparr>detectionCount = dc, totalCount = tc, currentPersonPresent = present,
          sleepDuration = dur, final = st3\<rparr>)"

text \<open>
  A wake-up re-initialises everything but the RTC variable, so a cycle starts from the
  retained verdict, no poll made and an empty trace. The function \<^verbatim>\<open>setup\<close> is
  \<open>setup_cycle\<close> here, its own name being a keyword of Isabelle. The first test of the
  loop condition is taken to read the clock as line 157 did.
\<close>

definition wake :: "bool \<Rightarrow> state" where
  "wake prior = \<lparr>lastPersonPresent = prior, polls = 0, trace = []\<rparr>"

definition setup_cycle :: "env \<Rightarrow> bool \<Rightarrow> cycle option" where
  "setup_cycle ev prior =
     (let startTime = boot_millis ev
      in case sample_loop startTime startTime (ticks ev) 0 0 of
           None \<Rightarrow> None
         | Some (dc, tc) \<Rightarrow> Some (after_sampling ev dc tc (wake prior)))"

section \<open>Notions used to state the properties\<close>

subsection \<open>Observing a run\<close>

text \<open>The events a step adds to the trace, and whether any of them engages the network.\<close>

definition since :: "state \<Rightarrow> state \<Rightarrow> event list" where
  "since st st' = drop (length (trace st)) (trace st')"

definition reported :: "state \<Rightarrow> state \<Rightarrow> bool" where
  "reported st st' = list_ex network_event (since st st')"

text \<open>The serial line of \<^verbatim>\<open>connectWiFi\<close> for either outcome (lines 112 to 117).\<close>

definition connect_line :: "bool \<Rightarrow> event" where
  "connect_line up = Serial (if up then ''WiFi connected.'' else ''WiFi connection failed.'')"

text \<open>What \<^verbatim>\<open>sendToFirebase\<close> does, given the status it reads (lines 137 to 147).\<close>

definition send_events :: "env \<Rightarrow> bool \<Rightarrow> string \<Rightarrow> int \<Rightarrow> event list" where
  "send_events ev up path status =
     (if up then
        [DatabaseSet path status,
         Serial (if db_set_ok ev then ''State updated to Firebase: '' @ String_of_status status
                 else ''Firebase set error: '')]
      else [Serial ''WiFi not connected. Cannot send update to Firebase.''])"

text \<open>
  The sample window of a run: the distances measured in the iterations the loop made,
  \<open>totalCount\<close> of them, in order.
\<close>

definition window :: "tick list \<Rightarrow> int \<Rightarrow> rat list" where
  "window ts tc = map (\<lambda>t. measureDistanceCM (echo t)) (take (nat tc) ts)"

definition timeouts :: "tick list \<Rightarrow> int \<Rightarrow> nat" where
  "timeouts ts tc = length (filter (\<lambda>t. echo t = None) (take (nat tc) ts))"

text \<open>
  The classifier as the specification words it: the verdict is true when the number of
  samples strictly below \<open>threshold_cm\<close> is at least \<open>required_count\<close>.
\<close>

definition close_count :: "rat list \<Rightarrow> rat \<Rightarrow> int" where
  "close_count samples threshold_cm = int (length (filter (\<lambda>s. s < threshold_cm) samples))"

definition classify :: "rat list \<Rightarrow> rat \<Rightarrow> int \<Rightarrow> bool" where
  "classify samples threshold_cm required_count =
     (close_count samples threshold_cm \<ge> required_count)"

subsection \<open>Timing\<close>

text \<open>
  The elapsed time \<open>now - start\<close> is computed modulo \<open>2 ^ 32\<close>. It is the true elapsed
  time as long as no single iteration, begun inside the window, carries it past
  \<open>2 ^ 32\<close> ms (some 49 days); \<open>lag_ok\<close> says so of one tick.
\<close>

definition lag_ok :: "tick \<Rightarrow> bool" where
  "lag_ok t = (unat (lag t) + 5500 \<le> 2 ^ 32)"

text \<open>
  The number of iterations as a function of the elapsed time \<open>e\<close> at the first test and
  of the lags, over the naturals: the loop goes on while less than 5000 ms have passed,
  and an iteration takes 500 ms and its lag.
\<close>

fun iterations :: "nat \<Rightarrow> nat list \<Rightarrow> nat" where
  "iterations e [] = 0"
| "iterations e (l # ls) = (if e < 5000 then Suc (iterations (e + 500 + l) ls) else 0)"

subsection \<open>Environments used as examples\<close>

definition steady :: "32 word \<Rightarrow> nat option list \<Rightarrow> tick list" where
  "steady l es = map (\<lambda>e. \<lparr>echo = e, lag = l\<rparr>) es"

text \<open>
  Six echoes of 2353 microseconds (40 cm) and four of 3529 (60 cm), no lag, a network
  that is up and a store that accepts the write.
\<close>

definition env_scenario :: env where
  "env_scenario =
     \<lparr>boot_millis = 37,
      ticks = steady 0 (replicate 6 (Some 2353) @ replicate 4 (Some 3529)),
      wifi_status = (\<lambda>k. True), db_set_ok = True\<rparr>"

text \<open>Five close echoes only, one short of the required count.\<close>

definition env_five :: env where
  "env_five =
     \<lparr>boot_millis = 37,
      ticks = steady 0 (replicate 5 (Some 2353) @ replicate 5 (Some 3529)),
      wifi_status = (\<lambda>k. True), db_set_ok = True\<rparr>"

text \<open>
  No echo ever returns, each measurement waits out its 30 ms, the network never comes
  up and the store would refuse the write.
\<close>

definition env_dead :: env where
  "env_dead =
     \<lparr>boot_millis = 37, ticks = steady 30 (replicate 10 None),
      wifi_status = (\<lambda>k. False), db_set_ok = False\<rparr>"

text \<open>Every iteration overruns its delay by 60 ms.\<close>

definition env_slow :: env where
  "env_slow =
     \<lparr>boot_millis = 37, ticks = steady 60 (replicate 10 (Some 2353)),
      wifi_status = (\<lambda>k. True), db_set_ok = True\<rparr>"

text \<open>
  The network comes up late: the 21 polls of the retry loop and the poll after it find
  it down, every later poll finds it up.
\<close>

definition env_late :: env where
  "env_late =
     \<lparr>boot_millis = 37,
      ticks = steady 0 (replicate 6 (Some 2353) @ replicate 4 (Some 3529)),
      wifi_status = (\<lambda>k. 22 \<le> k), db_set_ok = True\<rparr>"

text \<open>The network is up, the store refuses the write.\<close>

definition env_refused :: env where
  "env_refused =
     \<lparr>boot_millis = 37,
      ticks = steady 0 (replicate 6 (Some 2353) @ replicate 4 (Some 3529)),
      wifi_status = (\<lambda>k. True), db_set_ok = False\<rparr>"

section \<open>The sampling loop\<close>

text \<open>Only the elapsed time matters, not the clock reading the cycle starts from.\<close>

lemma sample_loop_shift:
  "sample_loop start now ts d t = sample_loop 0 (now - start) ts d t"
proof (induction ts arbitrary: now d t)
  case Nil
  show ?case by simp
next
  case (Cons a ts)
  have eq: "now + MEASUREMENT_INTERVAL_MS + lag a - start
              = (now - start) + MEASUREMENT_INTERVAL_MS + lag a"
    by simp
  show ?case
    using Cons.IH [of "now + MEASUREMENT_INTERVAL_MS + lag a"]
          Cons.IH [of "now - start + MEASUREMENT_INTERVAL_MS + lag a"]
    by (simp add: Let_def eq)
qed

text \<open>
  The counters of a run that ends: \<open>totalCount\<close> grows by the number of iterations made,
  \<open>detectionCount\<close> by the number of those whose distance is below the threshold.
\<close>

lemma sample_loop_counts:
  "sample_loop start now ts d t = Some (d', t') \<Longrightarrow>
     t \<le> t' \<and> nat (t' - t) \<le> length ts \<and>
     d' = d + close_count (window ts (t' - t)) OBJECT_THRESHOLD_CM"
proof (induction ts arbitrary: now d t)
  case Nil
  then show ?case by (simp add: close_count_def window_def split: if_splits)
next
  case (Cons a ts)
  show ?case
  proof (cases "now - start < ACTIVE_PERIOD_MS")
    case False
    with Cons.prems show ?thesis by (simp add: close_count_def window_def)
  next
    case True
    let ?d = "if measureDistanceCM (echo a) < OBJECT_THRESHOLD_CM then d + 1 else d"
    from True Cons.prems
    have run: "sample_loop start (now + MEASUREMENT_INTERVAL_MS + lag a) ts ?d (t + 1)
                 = Some (d', t')"
      by (simp add: Let_def)
    from Cons.IH [OF run]
    have le: "t + 1 \<le> t'" and len: "nat (t' - (t + 1)) \<le> length ts"
      and cnt: "d' = ?d + close_count (window ts (t' - (t + 1))) OBJECT_THRESHOLD_CM"
      by simp_all
    from le have n: "nat (t' - t) = Suc (nat (t' - (t + 1)))" by simp
    show ?thesis using le len cnt by (simp add: n close_count_def window_def)
  qed
qed

lemma timeout_is_close: "measureDistanceCM None < OBJECT_THRESHOLD_CM"
  by (simp add: measureDistanceCM_def pulseIn_def OBJECT_THRESHOLD_CM_def)

lemma timeouts_le_close:
  "int (timeouts ts n) \<le> close_count (window ts n) OBJECT_THRESHOLD_CM"
proof -
  have "length (filter (\<lambda>t. echo t = None) xs)
          \<le> length (filter (\<lambda>t. measureDistanceCM (echo t) < OBJECT_THRESHOLD_CM) xs)"
    for xs :: "tick list"
    by (induction xs) (auto simp: timeout_is_close)
  then show ?thesis
    by (simp add: timeouts_def close_count_def window_def filter_map comp_def)
qed

subsection \<open>Elapsed time without wrap-around\<close>

lemma in_window_unat: "e < ACTIVE_PERIOD_MS \<longleftrightarrow> unat e < 5000"
  by (simp add: ACTIVE_PERIOD_MS_def word_less_nat_alt)

lemma step_unat:
  assumes "e < ACTIVE_PERIOD_MS" "lag_ok a"
  shows "unat (e + MEASUREMENT_INTERVAL_MS + lag a) = unat e + 500 + unat (lag a)"
proof -
  from assms(1) have e: "unat e < 5000" by (simp add: in_window_unat)
  from assms(2) have l: "unat (lag a) + 5500 \<le> 4294967296" by (simp add: lag_ok_def)
  have "unat (e + MEASUREMENT_INTERVAL_MS + lag a) = (unat e + 500 + unat (lag a)) mod 2 ^ 32"
    by (simp add: MEASUREMENT_INTERVAL_MS_def unat_word_ariths mod_simps)
  also have "\<dots> = unat e + 500 + unat (lag a)"
    using e l by simp
  finally show ?thesis .
qed

lemma sample_loop_iterations:
  "\<forall>a\<in>set ts. lag_ok a \<Longrightarrow> sample_loop 0 e ts d t = Some (d', t') \<Longrightarrow>
     t' = t + int (iterations (unat e) (map (\<lambda>a. unat (lag a)) ts))"
proof (induction ts arbitrary: e d t)
  case Nil
  then show ?case by (simp split: if_splits)
next
  case (Cons a ts)
  show ?case
  proof (cases "e < ACTIVE_PERIOD_MS")
    case False
    then have "\<not> unat e < 5000" by (simp add: in_window_unat)
    with False Cons.prems show ?thesis by simp
  next
    case True
    then have e: "unat e < 5000" by (simp add: in_window_unat)
    from Cons.prems(1) have ok: "lag_ok a" and oks: "\<forall>a\<in>set ts. lag_ok a" by simp_all
    from True Cons.prems(2) obtain d1 where
      run: "sample_loop 0 (e + MEASUREMENT_INTERVAL_MS + lag a) ts d1 (t + 1) = Some (d', t')"
      by (simp add: Let_def)
    from Cons.IH [OF oks run] step_unat [OF True ok] e
    show ?thesis by simp
  qed
qed

text \<open>The loop ends once the environment offers the iterations the window has room for.\<close>

lemma sample_loop_returns:
  "\<forall>a\<in>set ts. lag_ok a \<Longrightarrow> (5000 - unat e + 499) div 500 \<le> length ts \<Longrightarrow>
     \<exists>r. sample_loop 0 e ts d t = Some r"
proof (induction ts arbitrary: e d t)
  case Nil
  then have "\<not> unat e < 5000" by simp
  then have "\<not> e < ACTIVE_PERIOD_MS" by (simp add: in_window_unat)
  then show ?case by simp
next
  case (Cons a ts)
  show ?case
  proof (cases "e < ACTIVE_PERIOD_MS")
    case False
    then show ?thesis by simp
  next
    case True
    then have e: "unat e < 5000" by (simp add: in_window_unat)
    from Cons.prems(1) have ok: "lag_ok a" and oks: "\<forall>a\<in>set ts. lag_ok a" by simp_all
    have "(5000 - unat (e + MEASUREMENT_INTERVAL_MS + lag a) + 499) div 500 \<le> length ts"
      using Cons.prems(2) e step_unat [OF True ok] by simp
    from Cons.IH [OF oks this] True show ?thesis by (simp add: Let_def)
  qed
qed

lemma iterations_ge:
  "n \<le> iterations e ls \<longleftrightarrow>
     n = 0 \<or> (n \<le> length ls \<and> e + 500 * (n - 1) + sum_list (take (n - 1) ls) < 5000)"
proof (induction ls arbitrary: e n)
  case Nil
  show ?case by auto
next
  case (Cons l ls)
  show ?case
  proof (cases n)
    case 0
    then show ?thesis by simp
  next
    case (Suc m)
    show ?thesis
    proof (cases m)
      case 0
      with Suc show ?thesis by simp
    next
      case (Suc k)
      with \<open>n = Suc m\<close> Cons.IH [of m "e + 500 + l"] show ?thesis
        by (auto simp: algebra_simps)
    qed
  qed
qed

text \<open>A whole cycle, once the loop has ended.\<close>

lemma setup_cycle_Some:
  "setup_cycle ev prior = Some c \<longleftrightarrow>
     (\<exists>dc tc. sample_loop 0 0 (ticks ev) 0 0 = Some (dc, tc)
        \<and> c = after_sampling ev dc tc (wake prior))"
proof -
  have "sample_loop (boot_millis ev) (boot_millis ev) (ticks ev) 0 0
          = sample_loop 0 0 (ticks ev) 0 0"
    using sample_loop_shift [of "boot_millis ev" "boot_millis ev"] by simp
  then show ?thesis
    by (auto simp: setup_cycle_def Let_def split: option.splits)
qed

lemma setup_cycle_returns:
  assumes "10 \<le> length (ticks ev)" "\<forall>t\<in>set (ticks ev). lag_ok t"
  shows "\<exists>dc tc. sample_loop 0 0 (ticks ev) 0 0 = Some (dc, tc)
           \<and> setup_cycle ev prior = Some (after_sampling ev dc tc (wake prior))"
proof -
  have "(5000 - unat (0 :: 32 word) + 499) div 500 \<le> length (ticks ev)"
    using assms(1) by simp
  from sample_loop_returns [OF assms(2) this, of 0 0]
  obtain dc tc where "sample_loop 0 0 (ticks ev) 0 0 = Some (dc, tc)" by auto
  then show ?thesis by (auto simp: setup_cycle_Some)
qed

lemma after_sampling_fields [simp]:
  "detectionCount (after_sampling ev dc tc st) = dc"
  "totalCount (after_sampling ev dc tc st) = tc"
  "currentPersonPresent (after_sampling ev dc tc st) = (dc \<ge> REQUIRED_COUNT)"
  "sleepDuration (after_sampling ev dc tc st) = select_sleep (dc \<ge> REQUIRED_COUNT)"
  by (simp_all add: after_sampling_def Let_def)

section \<open>The sleep scheduler\<close>

text \<open>
  C4. The duration chosen is \<open>PERSON_SLEEP_MS\<close>, 10 s, for a verdict of presence and
  \<open>NO_PERSON_SLEEP_MS\<close>, 30 s, otherwise, and the two durations differ.
\<close>

theorem sleep_duration_mapping:
  "select_sleep True = PERSON_SLEEP_MS \<and> select_sleep False = NO_PERSON_SLEEP_MS
   \<and> PERSON_SLEEP_MS = 10 * 1000 \<and> NO_PERSON_SLEEP_MS = 30 * 1000
   \<and> PERSON_SLEEP_MS \<noteq> NO_PERSON_SLEEP_MS"
  by (simp add: select_sleep_def PERSON_SLEEP_MS_def NO_PERSON_SLEEP_MS_def)

section \<open>The presence classifier\<close>

lemma classify_mset:
  "mset w' = mset w \<Longrightarrow> classify w' th rc = classify w th rc"
proof -
  assume "mset w' = mset w"
  then have "mset (filter (\<lambda>s. s < th) w') = mset (filter (\<lambda>s. s < th) w)"
    by (metis mset_filter)
  then have "length (filter (\<lambda>s. s < th) w') = length (filter (\<lambda>s. s < th) w)"
    by (metis size_mset)
  then show ?thesis by (simp add: classify_def close_count_def)
qed

lemma setup_cycle_counts:
  assumes "setup_cycle ev prior = Some c"
  shows "0 \<le> totalCount c" "nat (totalCount c) \<le> length (ticks ev)"
    "detectionCount c = close_count (window (ticks ev) (totalCount c)) OBJECT_THRESHOLD_CM"
    "currentPersonPresent c = (detectionCount c \<ge> REQUIRED_COUNT)"
proof -
  from assms obtain dc tc where run: "sample_loop 0 0 (ticks ev) 0 0 = Some (dc, tc)"
    and c: "c = after_sampling ev dc tc (wake prior)"
    by (auto simp: setup_cycle_Some)
  from sample_loop_counts [OF run] c
  show "0 \<le> totalCount c" "nat (totalCount c) \<le> length (ticks ev)"
    "detectionCount c = close_count (window (ticks ev) (totalCount c)) OBJECT_THRESHOLD_CM"
    by simp_all
  from c show "currentPersonPresent c = (detectionCount c \<ge> REQUIRED_COUNT)" by simp
qed

lemma length_window: "0 \<le> tc \<Longrightarrow> nat tc \<le> length ts \<Longrightarrow> int (length (window ts tc)) = tc"
  by (simp add: window_def)

text \<open>The sampling loop on the example environments.\<close>

lemma run_scenario: "sample_loop 0 0 (ticks env_scenario) 0 0 = Some (6, 10)"
  by code_simp

lemma run_five: "sample_loop 0 0 (ticks env_five) 0 0 = Some (5, 10)"
  by code_simp

lemma run_dead: "sample_loop 0 0 (ticks env_dead) 0 0 = Some (10, 10)"
  by code_simp

lemma run_slow: "sample_loop 0 0 (ticks env_slow) 0 0 = Some (9, 9)"
  by code_simp

text \<open>
  C1. In a cycle that has taken its window of \<open>totalCount\<close> samples, of which \<open>k\<close> lie
  strictly below the threshold of 50 cm, the verdict is true exactly when \<open>k\<close> is at least
  the required count of 6. The verdict is that of the specification's classifier on the
  window and on every reordering of it. With exactly 6 close samples it is true, with 5
  it is false.
\<close>

theorem classify_majority_vote:
  assumes "setup_cycle ev prior = Some c"
  shows "int (length (window (ticks ev) (totalCount c))) = totalCount c
    \<and> (currentPersonPresent c \<longleftrightarrow>
         close_count (window (ticks ev) (totalCount c)) OBJECT_THRESHOLD_CM \<ge> REQUIRED_COUNT)
    \<and> (\<forall>w'. mset w' = mset (window (ticks ev) (totalCount c)) \<longrightarrow>
         classify w' OBJECT_THRESHOLD_CM REQUIRED_COUNT = currentPersonPresent c)
    \<and> (close_count (window (ticks ev) (totalCount c)) OBJECT_THRESHOLD_CM = REQUIRED_COUNT
         \<longrightarrow> currentPersonPresent c)
    \<and> (close_count (window (ticks ev) (totalCount c)) OBJECT_THRESHOLD_CM = REQUIRED_COUNT - 1
         \<longrightarrow> \<not> currentPersonPresent c)
    \<and> OBJECT_THRESHOLD_CM = 50 \<and> REQUIRED_COUNT = 6"
proof -
  let ?w = "window (ticks ev) (totalCount c)"
  note cs = setup_cycle_counts [OF assms]
  have len: "int (length ?w) = totalCount c"
    using cs(1,2) by (rule length_window)
  have verdict: "currentPersonPresent c \<longleftrightarrow> close_count ?w OBJECT_THRESHOLD_CM \<ge> REQUIRED_COUNT"
    using cs(3,4) by simp
  have perm: "classify w' OBJECT_THRESHOLD_CM REQUIRED_COUNT = currentPersonPresent c"
    if "mset w' = mset ?w" for w'
    using classify_mset [OF that] verdict by (simp add: classify_def)
  have defaults: "OBJECT_THRESHOLD_CM = 50 \<and> REQUIRED_COUNT = 6"
    by (simp add: OBJECT_THRESHOLD_CM_def REQUIRED_COUNT_def)
  from len verdict perm defaults show ?thesis by simp
qed

theorem classify_majority_vote_witness:
  "(\<exists>c. setup_cycle env_scenario False = Some c \<and> totalCount c = 10
        \<and> close_count (window (ticks env_scenario) (totalCount c)) OBJECT_THRESHOLD_CM = 6
        \<and> currentPersonPresent c)
   \<and> (\<exists>c. setup_cycle env_five False = Some c \<and> totalCount c = 10
        \<and> close_count (window (ticks env_five) (totalCount c)) OBJECT_THRESHOLD_CM = 5
        \<and> \<not> currentPersonPresent c)"
proof -
  let ?c = "after_sampling env_scenario 6 10 (wake False)"
  let ?d = "after_sampling env_five 5 10 (wake False)"
  have c: "setup_cycle env_scenario False = Some ?c"
    by (simp add: setup_cycle_Some run_scenario)
  have d: "setup_cycle env_five False = Some ?d"
    by (simp add: setup_cycle_Some run_five)
  have kc: "close_count (window (ticks env_scenario) (totalCount ?c)) OBJECT_THRESHOLD_CM = 6"
    using setup_cycle_counts(3) [OF c] by simp
  have kd: "close_count (window (ticks env_five) (totalCount ?d)) OBJECT_THRESHOLD_CM = 5"
    using setup_cycle_counts(3) [OF d] by simp
  from classify_majority_vote [OF c] kc have "currentPersonPresent ?c"
    by (simp add: REQUIRED_COUNT_def)
  moreover from classify_majority_vote [OF d] kd have "\<not> currentPersonPresent ?d"
    by (simp add: REQUIRED_COUNT_def)
  ultimately show ?thesis using c d kc kd by simp
qed

section \<open>The effects of the reporting path\<close>

lemma emit_simps [simp]:
  "trace (emit e st) = trace st @ [e]"
  "polls (emit e st) = polls st"
  "lastPersonPresent (emit e st) = lastPersonPresent st"
  by (simp_all add: emit_def)

lemma retry_loop_effect:
  "\<exists>k. k \<le> nat r
     \<and> trace (retry_loop ev r st) = trace st @ replicate k (Delay 500)
     \<and> polls (retry_loop ev r st) = polls st + Suc k
     \<and> lastPersonPresent (retry_loop ev r st) = lastPersonPresent st
     \<and> (\<forall>j<k. \<not> wifi_status ev (polls st + j))
     \<and> (k < nat r \<longrightarrow> wifi_status ev (polls st + k))"
proof (induction ev r st rule: retry_loop.induct)
  case (1 ev retries st)
  let ?st1 = "st\<lparr>polls := Suc (polls st)\<rparr>"
  show ?case
  proof (cases "\<not> wifi_status ev (polls st) \<and> retries > 0")
    case False
    then have "retry_loop ev retries st = ?st1"
      by (subst retry_loop.simps) (auto simp: WiFi_status_def)
    with False show ?thesis by (intro exI [of _ 0]) auto
  next
    case True
    let ?st2 = "emit (Delay 500) ?st1"
    from True have unf: "retry_loop ev retries st = retry_loop ev (retries - 1) ?st2"
      by (subst retry_loop.simps) (simp add: WiFi_status_def)
    from True have "\<not> wifi_status ev (polls st)" and "retries > 0" by simp_all
    have ws: "WiFi_status ev st = (wifi_status ev (polls st), ?st1)"
      by (simp add: WiFi_status_def)
    from "1.IH" [OF ws [symmetric] True]
    obtain k where k: "k \<le> nat (retries - 1)"
      and tr: "trace (retry_loop ev (retries - 1) ?st2) = trace ?st2 @ replicate k (Delay 500)"
      and po: "polls (retry_loop ev (retries - 1) ?st2) = polls ?st2 + Suc k"
      and la: "lastPersonPresent (retry_loop ev (retries - 1) ?st2) = lastPersonPresent ?st2"
      and fa: "\<forall>j<k. \<not> wifi_status ev (polls ?st2 + j)"
      and up: "k < nat (retries - 1) \<longrightarrow> wifi_status ev (polls ?st2 + k)"
      by auto
    have "\<forall>j<Suc k. \<not> wifi_status ev (polls st + j)"
    proof (intro allI impI)
      fix j assume "j < Suc k"
      show "\<not> wifi_status ev (polls st + j)"
      proof (cases j)
        case 0
        with \<open>\<not> wifi_status ev (polls st)\<close> show ?thesis by simp
      next
        case (Suc i)
        with \<open>j < Suc k\<close> fa show ?thesis by simp
      qed
    qed
    moreover have "Suc k \<le> nat retries" using k \<open>retries > 0\<close> by simp
    moreover have "Suc k < nat retries \<longrightarrow> wifi_status ev (polls st + Suc k)"
      using up \<open>retries > 0\<close> by simp
    moreover have "trace (retry_loop ev retries st) = trace st @ replicate (Suc k) (Delay 500)"
      using tr unf by simp
    moreover have "polls (retry_loop ev retries st) = polls st + Suc (Suc k)"
      using po unf by simp
    moreover have "lastPersonPresent (retry_loop ev retries st) = lastPersonPresent st"
      using la unf by simp
    ultimately show ?thesis by blast
  qed
qed

lemma connectWiFi_effect:
  "\<exists>k. k \<le> 20
     \<and> trace (connectWiFi ev st) =
         trace st @ WiFiBegin # replicate k (Delay 500) @ [connect_line (wifi_status ev (polls st + Suc k))]
     \<and> polls (connectWiFi ev st) = polls st + Suc (Suc k)
     \<and> lastPersonPresent (connectWiFi ev st) = lastPersonPresent st
     \<and> (\<forall>j<k. \<not> wifi_status ev (polls st + j))
     \<and> (k < 20 \<longrightarrow> wifi_status ev (polls st + k))"
proof -
  from retry_loop_effect [of 20 ev "emit WiFiBegin st"]
  obtain k where k: "k \<le> 20"
    and tr: "trace (retry_loop ev 20 (emit WiFiBegin st)) = trace st @ WiFiBegin # replicate k (Delay 500)"
    and po: "polls (retry_loop ev 20 (emit WiFiBegin st)) = polls st + Suc k"
    and la: "lastPersonPresent (retry_loop ev 20 (emit WiFiBegin st)) = lastPersonPresent st"
    and fa: "\<forall>j<k. \<not> wifi_status ev (polls st + j)"
    and up: "k < 20 \<longrightarrow> wifi_status ev (polls st + k)"
    by auto
  have "trace (connectWiFi ev st) =
         trace st @ WiFiBegin # replicate k (Delay 500) @ [connect_line (wifi_status ev (polls st + Suc k))]"
    by (simp add: connectWiFi_def Let_def WiFi_status_def tr po connect_line_def)
  moreover have "polls (connectWiFi ev st) = polls st + Suc (Suc k)"
    by (simp add: connectWiFi_def Let_def WiFi_status_def po)
  moreover have "lastPersonPresent (connectWiFi ev st) = lastPersonPresent st"
    by (simp add: connectWiFi_def Let_def WiFi_status_def la)
  ultimately show ?thesis using k fa up by blast
qed

lemma sendToFirebase_effect:
  "trace (sendToFirebase ev path status st) =
     trace st @ send_events ev (wifi_status ev (polls st)) path status"
  "polls (sendToFirebase ev path status st) = Suc (polls st)"
  "lastPersonPresent (sendToFirebase ev path status st) = lastPersonPresent st"
  by (simp_all add: sendToFirebase_def WiFi_status_def Let_def send_events_def)

lemma initFirebase_effect [simp]:
  "trace (initFirebase st) = trace st @ [FirebaseInit]"
  "polls (initFirebase st) = polls st"
  "lastPersonPresent (initFirebase st) = lastPersonPresent st"
  by (simp_all add: initFirebase_def)

lemma report_gate_same:
  "cur = lastPersonPresent st \<Longrightarrow>
     report_gate ev cur st = emit (Serial ''No state change detected. No update sent.'') st"
  by (simp add: report_gate_def)

lemma report_gate_change:
  assumes "cur \<noteq> lastPersonPresent st"
  shows "\<exists>k. k \<le> 20
     \<and> since st (report_gate ev cur st) =
         Serial ''State change detected. Updating Firebase...'' # WiFiBegin #
         replicate k (Delay 500) @
         [connect_line (wifi_status ev (polls st + Suc k)), FirebaseInit] @
         send_events ev (wifi_status ev (polls st + Suc (Suc k))) ''/lab4/presence'' (if cur then 1 else 0) @
         [WiFiDisconnect]
     \<and> polls (report_gate ev cur st) = polls st + Suc (Suc (Suc k))
     \<and> (\<forall>j<k. \<not> wifi_status ev (polls st + j))
     \<and> (k < 20 \<longrightarrow> wifi_status ev (polls st + k))"
proof -
  let ?st1 = "emit (Serial ''State change detected. Updating Firebase...'') st"
  from connectWiFi_effect [of ev ?st1]
  obtain k where k: "k \<le> 20"
    and tr: "trace (connectWiFi ev ?st1) =
         trace ?st1 @ WiFiBegin # replicate k (Delay 500) @ [connect_line (wifi_status ev (polls ?st1 + Suc k))]"
    and po: "polls (connectWiFi ev ?st1) = polls ?st1 + Suc (Suc k)"
    and fa: "\<forall>j<k. \<not> wifi_status ev (polls ?st1 + j)"
    and up: "k < 20 \<longrightarrow> wifi_status ev (polls ?st1 + k)"
    by blast
  have "since st (report_gate ev cur st) =
         Serial ''State change detected. Updating Firebase...'' # WiFiBegin #
         replicate k (Delay 500) @
         [connect_line (wifi_status ev (polls st + Suc k)), FirebaseInit] @
         send_events ev (wifi_status ev (polls st + Suc (Suc k))) ''/lab4/presence'' (if cur then 1 else 0) @
         [WiFiDisconnect]"
    using assms by (simp add: report_gate_def Let_def since_def sendToFirebase_effect tr po)
  moreover have "polls (report_gate ev cur st) = polls st + Suc (Suc (Suc k))"
    using assms by (simp add: report_gate_def Let_def sendToFirebase_effect po)
  ultimately show ?thesis using k fa up by auto
qed

lemma report_gate_last [simp]: "lastPersonPresent (report_gate ev cur st) = cur"
  by (simp add: report_gate_def Let_def)


lemma after_sampling_trace:
  "trace (final (after_sampling ev dc tc st)) =
     trace (report_gate ev (dc \<ge> REQUIRED_COUNT) st) @
     [Serial (sleep_line (dc \<ge> REQUIRED_COUNT)),
      SleepTimerWakeup (ucast (select_sleep (dc \<ge> REQUIRED_COUNT)) * 1000),
      DeepSleepStart]"
  by (simp add: after_sampling_def Let_def deep_sleep_def)

lemma after_sampling_last [simp]:
  "lastPersonPresent (final (after_sampling ev dc tc st)) = (dc \<ge> REQUIRED_COUNT)"
  by (simp add: after_sampling_def Let_def deep_sleep_def)

lemma ok_dead: "list_all lag_ok (ticks env_dead)"
  by (auto simp: env_dead_def steady_def lag_ok_def list_all_iff)

lemma ok_scenario: "list_all lag_ok (ticks env_scenario)"
  by (auto simp: env_scenario_def steady_def lag_ok_def list_all_iff)

lemma len_dead: "10 \<le> length (ticks env_dead)"
  by (simp add: env_dead_def steady_def)

lemma len_scenario: "10 \<le> length (ticks env_scenario)"
  by (simp add: env_scenario_def steady_def)

section \<open>The distance sampler on a timeout\<close>

text \<open>
  C5. When no echo returns within the timeout, \<^verbatim>\<open>pulseIn\<close> gives 0 and the sample is a
  distance of 0 cm. It is no error: the iteration goes on as any other, adding one to
  \<open>totalCount\<close>, and since 0 cm is below the threshold it adds one to \<open>detectionCount\<close>
  too. So in a finished cycle the window has \<open>totalCount\<close> samples, timeouts included,
  every timeout is among the close samples, and six timeouts are enough for a verdict of
  presence.
\<close>

theorem sensor_timeout_counts_as_close:
  assumes "setup_cycle ev prior = Some c"
  shows "pulseIn None = 0 \<and> measureDistanceCM None = 0
    \<and> measureDistanceCM None < OBJECT_THRESHOLD_CM
    \<and> (\<forall>start now t ts dc tc. now - start < ACTIVE_PERIOD_MS \<and> echo t = None \<longrightarrow>
          sample_loop start now (t # ts) dc tc =
          sample_loop start (now + MEASUREMENT_INTERVAL_MS + lag t) ts (dc + 1) (tc + 1))
    \<and> int (length (window (ticks ev) (totalCount c))) = totalCount c
    \<and> int (timeouts (ticks ev) (totalCount c)) \<le> detectionCount c
    \<and> (REQUIRED_COUNT \<le> int (timeouts (ticks ev) (totalCount c)) \<longrightarrow> currentPersonPresent c)"
proof -
  note cs = setup_cycle_counts [OF assms]
  have zero: "pulseIn None = 0 \<and> measureDistanceCM None = 0"
    by (simp add: pulseIn_def measureDistanceCM_def)
  have step: "sample_loop start now (t # ts) dc tc =
          sample_loop start (now + MEASUREMENT_INTERVAL_MS + lag t) ts (dc + 1) (tc + 1)"
    if "now - start < ACTIVE_PERIOD_MS \<and> echo t = None" for start now t ts dc tc
    using that timeout_is_close by (simp add: Let_def)
  have len: "int (length (window (ticks ev) (totalCount c))) = totalCount c"
    using cs(1,2) by (rule length_window)
  have le: "int (timeouts (ticks ev) (totalCount c)) \<le> detectionCount c"
    using timeouts_le_close [of "ticks ev" "totalCount c"] cs(3) by simp
  then have "REQUIRED_COUNT \<le> int (timeouts (ticks ev) (totalCount c)) \<longrightarrow> currentPersonPresent c"
    using cs(4) by simp
  with zero timeout_is_close step len le show ?thesis by blast
qed

theorem sensor_timeout_counts_as_close_witness:
  "\<exists>c. setup_cycle env_dead True = Some c \<and> timeouts (ticks env_dead) (totalCount c) = 10
      \<and> totalCount c = 10 \<and> detectionCount c = 10 \<and> currentPersonPresent c"
proof -
  let ?c = "after_sampling env_dead 10 10 (wake True)"
  have c: "setup_cycle env_dead True = Some ?c"
    by (simp add: setup_cycle_Some run_dead)
  have t: "timeouts (ticks env_dead) 10 = 10"
    by (simp add: timeouts_def env_dead_def steady_def)
  from sensor_timeout_counts_as_close [OF c] t have "currentPersonPresent ?c"
    by (simp add: REQUIRED_COUNT_def)
  then show ?thesis using c t by simp
qed

section \<open>The whole cycle\<close>

text \<open>
  C8. A wake cycle ends by arming the sleep timer and entering deep sleep, whatever the
  echoes (timeouts included), the radio and the store do: the run returns, and the last
  two events of its trace are the timer, set to the chosen duration in microseconds, and
  the start of deep sleep. The environment has to offer the ten iterations the window
  has room for, none of which may wrap the 32-bit elapsed time.
\<close>

theorem cycle_reaches_sleep:
  assumes "10 \<le> length (ticks ev)" "\<forall>t\<in>set (ticks ev). lag_ok t"
  shows "\<exists>c pre. setup_cycle ev prior = Some c
    \<and> trace (final c) =
        pre @ [SleepTimerWakeup (ucast (sleepDuration c) * 1000), DeepSleepStart]
    \<and> sleepDuration c = select_sleep (currentPersonPresent c)"
proof -
  from setup_cycle_returns [OF assms, of prior]
  obtain dc tc where c: "setup_cycle ev prior = Some (after_sampling ev dc tc (wake prior))"
    by blast
  let ?c = "after_sampling ev dc tc (wake prior)"
  have "trace (final ?c) =
      (trace (report_gate ev (dc \<ge> REQUIRED_COUNT) (wake prior)) @
       [Serial (sleep_line (dc \<ge> REQUIRED_COUNT))]) @
      [SleepTimerWakeup (ucast (sleepDuration ?c) * 1000), DeepSleepStart]"
    by (simp add: after_sampling_trace)
  moreover have "sleepDuration ?c = select_sleep (currentPersonPresent ?c)" by simp
  ultimately show ?thesis using c by blast
qed

theorem cycle_reaches_sleep_witness:
  "10 \<le> length (ticks env_dead) \<and> list_all lag_ok (ticks env_dead)
   \<and> (\<exists>c pre. setup_cycle env_dead False = Some c
        \<and> trace (final c) = pre @ [SleepTimerWakeup 10000000, DeepSleepStart])"
proof -
  note len = len_dead and ok = ok_dead
  from ok have ok': "\<forall>t\<in>set (ticks env_dead). lag_ok t" by (simp add: list_all_iff)
  from cycle_reaches_sleep [OF len ok', of False]
  obtain c pre where c: "setup_cycle env_dead False = Some c"
    and tr: "trace (final c) = pre @ [SleepTimerWakeup (ucast (sleepDuration c) * 1000), DeepSleepStart]"
    by blast
  from c have "c = after_sampling env_dead 10 10 (wake False)"
    by (simp add: setup_cycle_Some run_dead)
  then have "sleepDuration c = 10000"
    by (simp add: select_sleep_def REQUIRED_COUNT_def PERSON_SLEEP_MS_def)
  with tr have "trace (final c) = pre @ [SleepTimerWakeup 10000000, DeepSleepStart]"
    by simp
  with c len ok show ?thesis by blast
qed

text \<open>
  C9, as amended. With a window of 5000 ms and an interval of 500 ms the loop takes at
  least one and at most ten samples, and exactly ten precisely when the first nine
  iterations overrun their delays by less than 500 ms in total.
\<close>

theorem window_of_at_most_ten_samples:
  assumes "10 \<le> length (ticks ev)" "\<forall>t\<in>set (ticks ev). lag_ok t"
  shows "\<exists>c. setup_cycle ev prior = Some c \<and> 1 \<le> totalCount c \<and> totalCount c \<le> 10
    \<and> (totalCount c = 10 \<longleftrightarrow> sum_list (map (\<lambda>t. unat (lag t)) (take 9 (ticks ev))) < 500)"
proof -
  let ?ls = "map (\<lambda>a. unat (lag a)) (ticks ev)"
  from setup_cycle_returns [OF assms, of prior]
  obtain dc tc where run: "sample_loop 0 0 (ticks ev) 0 0 = Some (dc, tc)"
    and c: "setup_cycle ev prior = Some (after_sampling ev dc tc (wake prior))"
    by blast
  from sample_loop_iterations [OF assms(2) run]
  have tc: "tc = int (iterations 0 ?ls)" by simp
  have one: "1 \<le> iterations 0 ?ls"
    using assms(1) by (simp add: iterations_ge)
  have "\<not> 11 \<le> iterations 0 ?ls"
    by (simp add: iterations_ge)
  then have ten: "iterations 0 ?ls \<le> 10" by simp
  have "10 \<le> iterations 0 ?ls \<longleftrightarrow> sum_list (take 9 ?ls) < 500"
    using assms(1) by (simp add: iterations_ge)
  with ten have "iterations 0 ?ls = 10 \<longleftrightarrow> sum_list (map (\<lambda>t. unat (lag t)) (take 9 (ticks ev))) < 500"
    by (auto simp: take_map)
  with one ten tc c show ?thesis by auto
qed

theorem window_of_at_most_ten_samples_witness:
  "10 \<le> length (ticks env_scenario) \<and> list_all lag_ok (ticks env_scenario)
   \<and> sum_list (map (\<lambda>t. unat (lag t)) (take 9 (ticks env_scenario))) < 500
   \<and> (\<exists>c. setup_cycle env_scenario False = Some c \<and> totalCount c = 10)"
proof -
  note len = len_scenario and ok = ok_scenario
  from ok have ok': "\<forall>t\<in>set (ticks env_scenario). lag_ok t" by (simp add: list_all_iff)
  have s: "sum_list (map (\<lambda>t. unat (lag t)) (take 9 (ticks env_scenario))) < 500"
    by (simp add: env_scenario_def steady_def sum_list_replicate)
  from window_of_at_most_ten_samples [OF len ok', of False] s
  have "\<exists>c. setup_cycle env_scenario False = Some c \<and> totalCount c = 10" by auto
  with len ok s show ?thesis by blast
qed

text \<open>
  C9 as stated fails: when every iteration overruns its delay by 60 ms, the tenth test of
  the loop condition comes 5040 ms after the start and the window has nine samples.
\<close>

theorem nine_samples_counterexample:
  "map_option totalCount (setup_cycle env_slow False) = Some 9"
proof -
  have "setup_cycle env_slow False = Some (after_sampling env_slow 9 9 (wake False))"
    by (simp add: setup_cycle_Some run_slow)
  then show ?thesis by simp
qed

text \<open>
  C10. At the end of every cycle the retained \<open>lastPersonPresent\<close> is the verdict of that
  cycle, whatever it was before and whatever became of the report; its value changes
  exactly when it differed from the verdict.
\<close>

theorem persistent_state_is_verdict:
  "lastPersonPresent (report_gate ev cur st) = cur
   \<and> (lastPersonPresent (report_gate ev cur st) \<noteq> lastPersonPresent st
        \<longleftrightarrow> cur \<noteq> lastPersonPresent st)
   \<and> lastPersonPresent (final (after_sampling ev dc tc st))
       = currentPersonPresent (after_sampling ev dc tc st)
   \<and> (\<forall>c. setup_cycle ev prior = Some c \<longrightarrow> lastPersonPresent (final c) = currentPersonPresent c)"
  by (auto simp: setup_cycle_Some)

theorem persistent_state_is_verdict_witness:
  "\<exists>c. setup_cycle env_dead False = Some c \<and> currentPersonPresent c
      \<and> lastPersonPresent (final c)"
proof -
  let ?c = "after_sampling env_dead 10 10 (wake False)"
  have c: "setup_cycle env_dead False = Some ?c"
    by (simp add: setup_cycle_Some run_dead)
  have v: "currentPersonPresent ?c" by (simp add: REQUIRED_COUNT_def)
  from persistent_state_is_verdict [of env_dead _ _ _ _ False] c v
  have "lastPersonPresent (final ?c)" by simp
  with c v show ?thesis by blast
qed

section \<open>The report gate\<close>

lemma since_emit [simp]: "since st (emit e st) = [e]"
  by (simp add: since_def)

lemma since_wake [simp]: "since (wake p) st = trace st"
  by (simp add: since_def wake_def)

lemma wake_fields [simp]:
  "lastPersonPresent (wake p) = p" "polls (wake p) = 0" "trace (wake p) = []"
  by (simp_all add: wake_def)

lemma is_delay_connect_line [simp]: "\<not> is_delay (connect_line b)"
  by (simp add: connect_line_def)

lemma network_connect_line [simp]: "\<not> network_event (connect_line b)"
  by (simp add: connect_line_def)

lemma write_connect_line [simp]: "\<not> database_write (connect_line b)"
  by (simp add: connect_line_def)

lemma filter_delay_send [simp]: "filter is_delay (send_events ev up path status) = []"
  by (simp add: send_events_def)

lemma write_send [simp]: "list_ex database_write (send_events ev up path status) = up"
  by (simp add: send_events_def)

lemma connect_line_notin_send [simp]: "connect_line b \<notin> set (send_events ev up path status)"
  by (simp add: send_events_def connect_line_def String_of_status_def)

lemma connect_line_inj [simp]: "connect_line a = connect_line b \<longleftrightarrow> a = b"
  by (cases a; cases b) (simp_all add: connect_line_def)

lemma connect_line_neq [simp]:
  "connect_line b \<noteq> Serial ''State change detected. Updating Firebase...''"
  "connect_line b \<noteq> WiFiBegin" "connect_line b \<noteq> Delay d"
  "connect_line b \<noteq> FirebaseInit" "connect_line b \<noteq> WiFiDisconnect"
  by (simp_all add: connect_line_def)

text \<open>The facts about a report that the claims use, drawn from its trace.\<close>

lemma report_gate_summary:
  assumes "cur \<noteq> lastPersonPresent st"
  shows "\<exists>k. k \<le> 20
     \<and> filter is_delay (since st (report_gate ev cur st)) = replicate k (Delay 500)
     \<and> (\<forall>j<k. \<not> wifi_status ev (polls st + j))
     \<and> (k < 20 \<longrightarrow> wifi_status ev (polls st + k))
     \<and> connect_line (wifi_status ev (polls st + Suc k)) \<in> set (since st (report_gate ev cur st))
     \<and> connect_line (\<not> wifi_status ev (polls st + Suc k)) \<notin> set (since st (report_gate ev cur st))
     \<and> (list_ex database_write (since st (report_gate ev cur st))
          \<longleftrightarrow> wifi_status ev (polls st + Suc (Suc k)))
     \<and> (wifi_status ev (polls st + Suc (Suc k)) \<longrightarrow>
          DatabaseSet ''/lab4/presence'' (if cur then 1 else 0) \<in> set (since st (report_gate ev cur st)))
     \<and> (wifi_status ev (polls st + Suc (Suc k)) \<and> \<not> db_set_ok ev \<longrightarrow>
          Serial ''Firebase set error: '' \<in> set (since st (report_gate ev cur st)))
     \<and> list_ex network_event (since st (report_gate ev cur st))"
proof -
  from report_gate_change [OF assms, of ev]
  obtain k where k: "k \<le> 20"
    and tr: "since st (report_gate ev cur st) =
         Serial ''State change detected. Updating Firebase...'' # WiFiBegin #
         replicate k (Delay 500) @
         [connect_line (wifi_status ev (polls st + Suc k)), FirebaseInit] @
         send_events ev (wifi_status ev (polls st + Suc (Suc k))) ''/lab4/presence'' (if cur then 1 else 0) @
         [WiFiDisconnect]"
    and fa: "\<forall>j<k. \<not> wifi_status ev (polls st + j)"
    and up: "k < 20 \<longrightarrow> wifi_status ev (polls st + k)"
    by blast
  have 1: "filter is_delay (since st (report_gate ev cur st)) = replicate k (Delay 500)"
    by (simp add: tr)
  have 2: "connect_line (wifi_status ev (polls st + Suc k)) \<in> set (since st (report_gate ev cur st))"
    by (simp add: tr)
  have 3: "connect_line (\<not> wifi_status ev (polls st + Suc k)) \<notin> set (since st (report_gate ev cur st))"
    by (simp add: tr)
  have 4: "list_ex database_write (since st (report_gate ev cur st))
          \<longleftrightarrow> wifi_status ev (polls st + Suc (Suc k))"
    by (simp add: tr list_ex_iff send_events_def)
  have 5: "wifi_status ev (polls st + Suc (Suc k)) \<longrightarrow>
          DatabaseSet ''/lab4/presence'' (if cur then 1 else 0) \<in> set (since st (report_gate ev cur st))"
    by (simp add: tr send_events_def)
  have 6: "wifi_status ev (polls st + Suc (Suc k)) \<and> \<not> db_set_ok ev \<longrightarrow>
          Serial ''Firebase set error: '' \<in> set (since st (report_gate ev cur st))"
    by (simp add: tr send_events_def)
  have 7: "list_ex network_event (since st (report_gate ev cur st))"
    by (simp add: tr)
  from k 1 fa up 2 3 4 5 6 7 show ?thesis by blast
qed

lemma never_up:
  assumes "\<forall>j. \<not> wifi_status ev j" "k \<le> 20" "k < 20 \<longrightarrow> wifi_status ev (polls st + k)"
  shows "k = (20::nat)"
  using assms by (cases "k < 20") auto

lemma gate_quiet:
  "cur = lastPersonPresent st \<Longrightarrow>
     since st (report_gate ev cur st) = [Serial ''No state change detected. No update sent.'']
     \<and> \<not> reported st (report_gate ev cur st)
     \<and> polls (report_gate ev cur st) = polls st"
  by (simp add: report_gate_same reported_def)

lemma gate_reports:
  "cur \<noteq> lastPersonPresent st \<Longrightarrow> reported st (report_gate ev cur st)"
  using report_gate_summary [of cur st ev] by (auto simp: reported_def)

text \<open>
  C2. The gate engages the network exactly when the verdict differs from the retained
  state. When they are equal it adds nothing to the trace but the line saying so, polls
  nothing and leaves the retained state as it was. When they differ the report is
  attempted in full: the gate starts the radio, waits up to 20 times 500 ms for the link,
  logs the outcome, initialises the store client, writes the encoding of the verdict (1
  for present, 0 for absent) to \<^verbatim>\<open>/lab4/presence\<close> exactly when the poll made at sending
  time finds the link up, writes nothing else, releases the radio, and retains the
  verdict. Starting from a retained \<open>False\<close>, a verdict of \<open>True\<close> is reported and
  retained; the next cycle, waking with that state and reaching the same verdict, reports
  nothing.
\<close>

theorem report_gate_policy:
  "reported st (report_gate ev cur st) = (cur \<noteq> lastPersonPresent st)
   \<and> (cur = lastPersonPresent st \<longrightarrow>
        since st (report_gate ev cur st) = [Serial ''No state change detected. No update sent.'']
        \<and> lastPersonPresent (report_gate ev cur st) = lastPersonPresent st
        \<and> polls (report_gate ev cur st) = polls st)
   \<and> (cur \<noteq> lastPersonPresent st \<longrightarrow>
        (\<exists>k. k \<le> 20
           \<and> since st (report_gate ev cur st) =
               Serial ''State change detected. Updating Firebase...'' # WiFiBegin #
               replicate k (Delay 500) @
               [connect_line (wifi_status ev (polls st + Suc k)), FirebaseInit] @
               send_events ev (wifi_status ev (polls st + Suc (Suc k))) ''/lab4/presence''
                 (if cur then 1 else 0) @
               [WiFiDisconnect]
           \<and> (\<forall>j<k. \<not> wifi_status ev (polls st + j))
           \<and> (k < 20 \<longrightarrow> wifi_status ev (polls st + k))
           \<and> polls (report_gate ev cur st) = polls st + Suc (Suc (Suc k)))
        \<and> WiFiBegin \<in> set (since st (report_gate ev cur st))
        \<and> FirebaseInit \<in> set (since st (report_gate ev cur st))
        \<and> WiFiDisconnect \<in> set (since st (report_gate ev cur st))
        \<and> (DatabaseSet ''/lab4/presence'' (if cur then 1 else 0)
              \<in> set (since st (report_gate ev cur st))
            \<longleftrightarrow> wifi_status ev (polls (report_gate ev cur st) - 1))
        \<and> (\<forall>p v. DatabaseSet p v \<in> set (since st (report_gate ev cur st)) \<longrightarrow>
              p = ''/lab4/presence'' \<and> v = (if cur then 1 else 0))
        \<and> lastPersonPresent (report_gate ev cur st) = cur)
   \<and> reported (wake False) (report_gate ev True (wake False))
   \<and> lastPersonPresent (report_gate ev True (wake False)) = True
   \<and> \<not> reported (wake (lastPersonPresent (report_gate ev True (wake False))))
          (report_gate ev' True (wake (lastPersonPresent (report_gate ev True (wake False)))))"
proof -
  have 1: "reported st (report_gate ev cur st) = (cur \<noteq> lastPersonPresent st)"
    using gate_reports [of cur st ev] gate_quiet [of cur st ev] by blast
  have 2: "cur = lastPersonPresent st \<longrightarrow>
        since st (report_gate ev cur st) = [Serial ''No state change detected. No update sent.'']
        \<and> lastPersonPresent (report_gate ev cur st) = lastPersonPresent st
        \<and> polls (report_gate ev cur st) = polls st"
    using gate_quiet [of cur st ev] by simp
  have 3: "(\<exists>k. k \<le> 20
           \<and> since st (report_gate ev cur st) =
               Serial ''State change detected. Updating Firebase...'' # WiFiBegin #
               replicate k (Delay 500) @
               [connect_line (wifi_status ev (polls st + Suc k)), FirebaseInit] @
               send_events ev (wifi_status ev (polls st + Suc (Suc k))) ''/lab4/presence''
                 (if cur then 1 else 0) @
               [WiFiDisconnect]
           \<and> (\<forall>j<k. \<not> wifi_status ev (polls st + j))
           \<and> (k < 20 \<longrightarrow> wifi_status ev (polls st + k))
           \<and> polls (report_gate ev cur st) = polls st + Suc (Suc (Suc k)))
        \<and> WiFiBegin \<in> set (since st (report_gate ev cur st))
        \<and> FirebaseInit \<in> set (since st (report_gate ev cur st))
        \<and> WiFiDisconnect \<in> set (since st (report_gate ev cur st))
        \<and> (DatabaseSet ''/lab4/presence'' (if cur then 1 else 0)
              \<in> set (since st (report_gate ev cur st))
            \<longleftrightarrow> wifi_status ev (polls (report_gate ev cur st) - 1))
        \<and> (\<forall>p v. DatabaseSet p v \<in> set (since st (report_gate ev cur st)) \<longrightarrow>
              p = ''/lab4/presence'' \<and> v = (if cur then 1 else 0))"
    if ne: "cur \<noteq> lastPersonPresent st"
  proof -
    from report_gate_change [OF ne, of ev]
    obtain k where k: "k \<le> 20"
      and tr: "since st (report_gate ev cur st) =
               Serial ''State change detected. Updating Firebase...'' # WiFiBegin #
               replicate k (Delay 500) @
               [connect_line (wifi_status ev (polls st + Suc k)), FirebaseInit] @
               send_events ev (wifi_status ev (polls st + Suc (Suc k))) ''/lab4/presence''
                 (if cur then 1 else 0) @
               [WiFiDisconnect]"
      and po: "polls (report_gate ev cur st) = polls st + Suc (Suc (Suc k))"
      and fa: "\<forall>j<k. \<not> wifi_status ev (polls st + j)"
      and up: "k < 20 \<longrightarrow> wifi_status ev (polls st + k)"
      by blast
    have a: "WiFiBegin \<in> set (since st (report_gate ev cur st))"
      "FirebaseInit \<in> set (since st (report_gate ev cur st))"
      "WiFiDisconnect \<in> set (since st (report_gate ev cur st))"
      by (simp_all add: tr)
    have b: "DatabaseSet ''/lab4/presence'' (if cur then 1 else 0)
              \<in> set (since st (report_gate ev cur st))
            \<longleftrightarrow> wifi_status ev (polls (report_gate ev cur st) - 1)"
      by (simp add: tr po send_events_def connect_line_def)
    have c: "\<forall>p v. DatabaseSet p v \<in> set (since st (report_gate ev cur st)) \<longrightarrow>
              p = ''/lab4/presence'' \<and> v = (if cur then 1 else 0)"
      by (simp add: tr send_events_def connect_line_def)
    from k tr fa up po a b c show ?thesis by blast
  qed
  have 4: "reported (wake False) (report_gate ev True (wake False))"
    by (rule gate_reports) simp
  have 5: "\<not> reported (wake (lastPersonPresent (report_gate ev True (wake False))))
          (report_gate ev' True (wake (lastPersonPresent (report_gate ev True (wake False)))))"
    using gate_quiet [of True "wake True" ev'] by simp
  from 1 2 3 4 5 show ?thesis by simp
qed

theorem report_gate_policy_witness:
  "reported (wake False) (report_gate env_scenario True (wake False))
   \<and> lastPersonPresent (report_gate env_scenario True (wake False))
   \<and> trace (report_gate env_scenario True (wake False))
       = [Serial ''State change detected. Updating Firebase...'', WiFiBegin,
          Serial ''WiFi connected.'', FirebaseInit, DatabaseSet ''/lab4/presence'' 1,
          Serial ''State updated to Firebase: 1'', WiFiDisconnect]
   \<and> \<not> reported (wake True) (report_gate env_scenario True (wake True))
   \<and> trace (report_gate env_scenario True (wake True))
       = [Serial ''No state change detected. No update sent.'']"
proof -
  have ne: "True \<noteq> lastPersonPresent (wake False)" by simp
  have ws: "wifi_status env_scenario j" for j by (simp add: env_scenario_def)
  have ok: "db_set_ok env_scenario" by (simp add: env_scenario_def)
  from report_gate_policy [of "wake False" env_scenario True env_scenario] ne
  obtain k where tr: "trace (report_gate env_scenario True (wake False)) =
               Serial ''State change detected. Updating Firebase...'' # WiFiBegin #
               replicate k (Delay 500) @
               [connect_line (wifi_status env_scenario (Suc k)), FirebaseInit] @
               send_events env_scenario (wifi_status env_scenario (Suc (Suc k))) ''/lab4/presence'' 1 @
               [WiFiDisconnect]"
    and fa: "\<forall>j<k. \<not> wifi_status env_scenario j"
    by auto
  from fa ws have "k = 0" by (cases k) auto
  with tr ws ok have full: "trace (report_gate env_scenario True (wake False))
       = [Serial ''State change detected. Updating Firebase...'', WiFiBegin,
          Serial ''WiFi connected.'', FirebaseInit, DatabaseSet ''/lab4/presence'' 1,
          Serial ''State updated to Firebase: 1'', WiFiDisconnect]"
    by (simp add: connect_line_def send_events_def String_of_status_def)
  from report_gate_policy [of "wake False" env_scenario True env_scenario]
       report_gate_policy [of "wake True" env_scenario True env_scenario] full
  show ?thesis by simp
qed

text \<open>
  C3. Whenever the verdict differs from the retained state a report is attempted and the
  retained state becomes the verdict, for every behaviour of the radio and of the store:
  also when the connection is never made, so that the failure is logged and nothing is
  written, and also when the store answers the write with an error.
\<close>

theorem state_updated_on_every_attempt:
  assumes "cur \<noteq> lastPersonPresent st"
  shows "lastPersonPresent (report_gate ev cur st) = cur
    \<and> reported st (report_gate ev cur st)
    \<and> ((\<forall>j. \<not> wifi_status ev j) \<longrightarrow>
         connect_line False \<in> set (since st (report_gate ev cur st))
         \<and> \<not> list_ex database_write (since st (report_gate ev cur st))
         \<and> lastPersonPresent (report_gate ev cur st) = cur)
    \<and> ((\<forall>j. wifi_status ev j) \<and> \<not> db_set_ok ev \<longrightarrow>
         Serial ''Firebase set error: '' \<in> set (since st (report_gate ev cur st))
         \<and> lastPersonPresent (report_gate ev cur st) = cur)"
proof -
  from report_gate_summary [OF assms, of ev]
  obtain k where k: "k \<le> 20"
    and up: "k < 20 \<longrightarrow> wifi_status ev (polls st + k)"
    and line: "connect_line (wifi_status ev (polls st + Suc k)) \<in> set (since st (report_gate ev cur st))"
    and wr: "list_ex database_write (since st (report_gate ev cur st))
          \<longleftrightarrow> wifi_status ev (polls st + Suc (Suc k))"
    and err: "wifi_status ev (polls st + Suc (Suc k)) \<and> \<not> db_set_ok ev \<longrightarrow>
          Serial ''Firebase set error: '' \<in> set (since st (report_gate ev cur st))"
    by blast
  have down: "(\<forall>j. \<not> wifi_status ev j) \<longrightarrow>
         connect_line False \<in> set (since st (report_gate ev cur st))
         \<and> \<not> list_ex database_write (since st (report_gate ev cur st))"
    using line wr by auto
  have refused: "(\<forall>j. wifi_status ev j) \<and> \<not> db_set_ok ev \<longrightarrow>
         Serial ''Firebase set error: '' \<in> set (since st (report_gate ev cur st))"
    using err by simp
  from down refused gate_reports [OF assms, of ev] show ?thesis by simp
qed

theorem state_updated_on_every_attempt_witness:
  "lastPersonPresent (report_gate env_dead True (wake False))
   \<and> Serial ''WiFi connection failed.'' \<in> set (trace (report_gate env_dead True (wake False)))
   \<and> \<not> list_ex database_write (trace (report_gate env_dead True (wake False)))
   \<and> lastPersonPresent (report_gate env_refused True (wake False))
   \<and> Serial ''Firebase set error: '' \<in> set (trace (report_gate env_refused True (wake False)))"
proof -
  have d: "\<forall>j. \<not> wifi_status env_dead j" by (simp add: env_dead_def)
  have r: "(\<forall>j. wifi_status env_refused j) \<and> \<not> db_set_ok env_refused"
    by (simp add: env_refused_def)
  have ne: "True \<noteq> lastPersonPresent (wake False)" by simp
  from state_updated_on_every_attempt [OF ne, of env_dead] d
       state_updated_on_every_attempt [OF ne, of env_refused] r
  show ?thesis by (simp add: connect_line_def)
qed

text \<open>
  C7. A second pass through the gate with the same verdict, after the first has brought
  the retained state to that verdict, engages no network: it polls nothing and adds only
  the line that says no change was detected. The same holds when the second pass runs in
  the next cycle, from the state a wake-up restores.
\<close>

theorem report_gate_idempotent:
  "\<not> reported (report_gate ev1 cur st) (report_gate ev2 cur (report_gate ev1 cur st))
   \<and> since (report_gate ev1 cur st) (report_gate ev2 cur (report_gate ev1 cur st))
       = [Serial ''No state change detected. No update sent.'']
   \<and> polls (report_gate ev2 cur (report_gate ev1 cur st)) = polls (report_gate ev1 cur st)
   \<and> \<not> reported (wake (lastPersonPresent (report_gate ev1 cur st)))
          (report_gate ev2 cur (wake (lastPersonPresent (report_gate ev1 cur st))))"
  using gate_quiet [of cur "report_gate ev1 cur st" ev2] gate_quiet [of cur "wake cur" ev2]
  by simp

theorem report_gate_idempotent_witness:
  "reported (wake False) (report_gate env_scenario True (wake False))
   \<and> \<not> reported (report_gate env_scenario True (wake False))
          (report_gate env_scenario True (report_gate env_scenario True (wake False)))
   \<and> \<not> reported (wake True) (report_gate env_scenario True (wake True))"
  using report_gate_idempotent [of env_scenario True "wake False" env_scenario]
        gate_reports [of True "wake False" env_scenario]
  by simp

text \<open>
  C6, as amended. On the report path the connect step waits \<open>k\<close> times 500 ms with \<open>k\<close> at
  most 20, each wait after a poll that found the link down, and stops short of 20 only on
  a poll that finds it up; it then logs the one line that fits the status it reads,
  success or failure. The write is guarded by the status read at the time of sending: a
  value is written exactly when that poll finds the link up. When the link is down
  throughout, all 20 waits are made, the failure is logged and nothing is written.
  Nothing is queued: the next pass with the same verdict engages no network. The cycle
  goes on to deep sleep.
\<close>

theorem connect_bounded_push_guarded:
  assumes "cur \<noteq> lastPersonPresent st"
  shows "\<exists>k. k \<le> 20
    \<and> filter is_delay (since st (report_gate ev cur st)) = replicate k (Delay 500)
    \<and> (\<forall>j<k. \<not> wifi_status ev (polls st + j))
    \<and> (k < 20 \<longrightarrow> wifi_status ev (polls st + k))
    \<and> connect_line (wifi_status ev (polls st + Suc k)) \<in> set (since st (report_gate ev cur st))
    \<and> connect_line (\<not> wifi_status ev (polls st + Suc k)) \<notin> set (since st (report_gate ev cur st))
    \<and> (list_ex database_write (since st (report_gate ev cur st))
         \<longleftrightarrow> wifi_status ev (polls st + Suc (Suc k)))
    \<and> ((\<forall>j. \<not> wifi_status ev j) \<longrightarrow>
         k = 20 \<and> connect_line False \<in> set (since st (report_gate ev cur st))
         \<and> \<not> list_ex database_write (since st (report_gate ev cur st)))
    \<and> \<not> reported (report_gate ev cur st) (report_gate ev' cur (report_gate ev cur st))
    \<and> (\<exists>pre. trace (final (after_sampling ev dc tc st)) = pre @ [DeepSleepStart])"
proof -
  from report_gate_summary [OF assms, of ev]
  obtain k where k: "k \<le> 20"
    and dl: "filter is_delay (since st (report_gate ev cur st)) = replicate k (Delay 500)"
    and fa: "\<forall>j<k. \<not> wifi_status ev (polls st + j)"
    and up: "k < 20 \<longrightarrow> wifi_status ev (polls st + k)"
    and line: "connect_line (wifi_status ev (polls st + Suc k)) \<in> set (since st (report_gate ev cur st))"
    and nline: "connect_line (\<not> wifi_status ev (polls st + Suc k)) \<notin> set (since st (report_gate ev cur st))"
    and wr: "list_ex database_write (since st (report_gate ev cur st))
          \<longleftrightarrow> wifi_status ev (polls st + Suc (Suc k))"
    by blast
  have down: "(\<forall>j. \<not> wifi_status ev j) \<longrightarrow>
         k = 20 \<and> connect_line False \<in> set (since st (report_gate ev cur st))
         \<and> \<not> list_ex database_write (since st (report_gate ev cur st))"
    using never_up [OF _ k up] line wr by auto
  have quiet: "\<not> reported (report_gate ev cur st) (report_gate ev' cur (report_gate ev cur st))"
    using gate_quiet [of cur "report_gate ev cur st" ev'] by simp
  have sleep: "\<exists>pre. trace (final (after_sampling ev dc tc st)) = pre @ [DeepSleepStart]"
    by (simp add: after_sampling_def Let_def deep_sleep_def)
  from k dl fa up line nline wr down quiet sleep show ?thesis by blast
qed

theorem connect_bounded_push_guarded_witness:
  "filter is_delay (trace (report_gate env_dead True (wake False))) = replicate 20 (Delay 500)
   \<and> Serial ''WiFi connection failed.'' \<in> set (trace (report_gate env_dead True (wake False)))
   \<and> \<not> list_ex database_write (trace (report_gate env_dead True (wake False)))"
proof -
  have d: "\<forall>j. \<not> wifi_status env_dead j" by (simp add: env_dead_def)
  have ne: "True \<noteq> lastPersonPresent (wake False)" by simp
  from connect_bounded_push_guarded [OF ne, of env_dead] d
  show ?thesis by (auto simp: connect_line_def)
qed

text \<open>
  C6 as stated fails: when the link comes up after the retry loop has used its 20 waits
  and the failure has been logged, the poll in \<^verbatim>\<open>sendToFirebase\<close> finds it up and the value
  is written all the same.
\<close>

theorem late_link_counterexample:
  "filter is_delay (trace (report_gate env_late True (wake False))) = replicate 20 (Delay 500)
   \<and> Serial ''WiFi connection failed.'' \<in> set (trace (report_gate env_late True (wake False)))
   \<and> DatabaseSet ''/lab4/presence'' 1 \<in> set (trace (report_gate env_late True (wake False)))"
proof -
  have ne: "True \<noteq> lastPersonPresent (wake False)" by simp
  from report_gate_summary [OF ne, of env_late]
  obtain k where k: "k \<le> 20"
    and dl: "filter is_delay (trace (report_gate env_late True (wake False))) = replicate k (Delay 500)"
    and up: "k < 20 \<longrightarrow> wifi_status env_late k"
    and line: "connect_line (wifi_status env_late (Suc k)) \<in> set (trace (report_gate env_late True (wake False)))"
    and db: "wifi_status env_late (Suc (Suc k)) \<longrightarrow>
          DatabaseSet ''/lab4/presence'' 1 \<in> set (trace (report_gate env_late True (wake False)))"
    by auto
  from k up have k20: "k = 20" by (cases "k < 20") (auto simp: env_late_def)
  have "\<not> wifi_status env_late (Suc 20)" "wifi_status env_late (Suc (Suc 20))"
    by (simp_all add: env_late_def)
  with k20 dl line db show ?thesis by (simp add: connect_line_def)
qed

end
